theory Spec2Isabelle
  imports Complex_Main "HOL-Library.Multiset"
begin

section \<open>Values shared by the notebooks\<close>

text \<open>
  The notebooks compute with NumPy's 64-bit floats. A float is modelled as a real number
  without rounding, or as NaN: the code's tests (\<^verbatim>\<open>ratings_mat[i, j] > 0\<close>,
  \<^verbatim>\<open>~np.isnan(ratings_mat)\<close>, \<^verbatim>\<open>sample_diffs <= obs_diff\<close>) behave differently on NaN,
  so NaN is kept; rounding and the infinities are left out.
\<close>

datatype float64 = NaN | Fin real

datatype error = IndexError | ValueError | KeyError | ZeroDivisionError | UnboundLocalError

fun isnan :: "float64 \<Rightarrow> bool" where
  "isnan NaN = True"
| "isnan (Fin r) = False"

fun the_real :: "float64 \<Rightarrow> real" where
  "the_real (Fin r) = r"
| "the_real NaN = 0"

text \<open>Arithmetic propagates NaN; every comparison with NaN is false.\<close>

fun fadd :: "float64 \<Rightarrow> float64 \<Rightarrow> float64" where
  "fadd (Fin a) (Fin b) = Fin (a + b)"
| "fadd _ _ = NaN"

fun fsub :: "float64 \<Rightarrow> float64 \<Rightarrow> float64" where
  "fsub (Fin a) (Fin b) = Fin (a - b)"
| "fsub _ _ = NaN"

fun fmul :: "float64 \<Rightarrow> float64 \<Rightarrow> float64" where
  "fmul (Fin a) (Fin b) = Fin (a * b)"
| "fmul _ _ = NaN"

fun fle :: "float64 \<Rightarrow> float64 \<Rightarrow> bool" where
  "fle (Fin a) (Fin b) = (a \<le> b)"
| "fle _ _ = False"

fun fge :: "float64 \<Rightarrow> float64 \<Rightarrow> bool" where
  "fge (Fin a) (Fin b) = (b \<le> a)"
| "fge _ _ = False"

fun fgt :: "float64 \<Rightarrow> float64 \<Rightarrow> bool" where
  "fgt (Fin a) (Fin b) = (b < a)"
| "fgt _ _ = False"

section \<open>The library calls of the resampling notebook\<close>

text \<open>
  \<^verbatim>\<open>np.percentile(a, p)\<close> in its default (linear interpolation) form: a level outside
  [0, 100] raises ValueError; an empty array raises IndexError; an array holding a NaN
  gives NaN; otherwise the value at the fractional position \<open>(n - 1) * p / 100\<close> of the
  sorted array, interpolated between its two neighbours.
\<close>

definition percentile :: "float64 list \<Rightarrow> real \<Rightarrow> error + float64" where
  "percentile a p =
     (if p < 0 \<or> 100 < p then Inl ValueError
      else if a = [] then Inl IndexError
      else if list_ex isnan a then Inr NaN
      else
        (let s = sort (map the_real a);
             h = (real (length s) - 1) * p / 100;
             lo = nat \<lfloor>h\<rfloor>;
             hi = min (lo + 1) (length s - 1)
         in Inr (Fin (s ! lo + (h - real lo) * (s ! hi - s ! lo)))))"

text \<open>
  \<^verbatim>\<open>np.random.permutation(y)\<close>: a shuffled copy of \<open>y\<close>. The generator's draws are the
  parameter \<open>r\<close>: each element is inserted at a drawn position among those placed
  before it. The result holds the elements of \<open>y\<close>, each as often as \<open>y\<close> does.
\<close>

primrec permutation :: "(nat \<Rightarrow> nat) \<Rightarrow> 'a list \<Rightarrow> 'a list" where
  "permutation r [] = []"
| "permutation r (v # vs) =
     (let p = permutation r vs; k = r (length vs) mod Suc (length vs)
      in take k p @ v # drop k p)"


text \<open>
  \<^verbatim>\<open>x[labels == g]\<close>: the elements of \<open>x\<close> at the positions where \<open>labels\<close> holds \<open>g\<close>. A
  boolean mask of another length than \<open>x\<close> raises IndexError.
\<close>

definition mask_select :: "float64 list \<Rightarrow> int list \<Rightarrow> int \<Rightarrow> error + float64 list" where
  "mask_select x labels g =
     (if length labels = length x
      then Inr (map fst (filter (\<lambda>vl. snd vl = g) (zip x labels)))
      else Inl IndexError)"

section \<open>quantile\_ci: the bootstrap confidence interval\<close>



section \<open>quantile\_permtest: the permutation test\<close>

text \<open>
  The difference of the two groups' quantiles, \<^verbatim>\<open>exp_q - cond_q\<close>, for one labelling.
  In the body of the function \<open>y\<close> holds the 0/1 labels and \<open>x\<close> the data.
\<close>

definition quantile_diff :: "float64 list \<Rightarrow> int list \<Rightarrow> real \<Rightarrow> error + float64" where
  "quantile_diff x labels q =
     (case mask_select x labels 0 of
        Inl e \<Rightarrow> Inl e
      | Inr g0 \<Rightarrow>
          (case percentile g0 (100 * q) of
             Inl e \<Rightarrow> Inl e
           | Inr cond_q \<Rightarrow>
               (case mask_select x labels 1 of
                  Inl e \<Rightarrow> Inl e
                | Inr g1 \<Rightarrow>
                    (case percentile g1 (100 * q) of
                       Inl e \<Rightarrow> Inl e
                     | Inr exp_q \<Rightarrow> Inr (fsub exp_q cond_q)))))"

primrec permutation_loop ::
  "(nat \<Rightarrow> nat \<Rightarrow> nat) \<Rightarrow> float64 list \<Rightarrow> int list \<Rightarrow> real \<Rightarrow> nat \<Rightarrow> error + float64 list" where
  "permutation_loop rnd x y q 0 = Inr []"
| "permutation_loop rnd x y q (Suc t) =
     (case permutation_loop rnd x y q t of
        Inl e \<Rightarrow> Inl e
      | Inr sample_diffs \<Rightarrow>
          (case quantile_diff x (permutation (rnd t) y) q of
             Inl e \<Rightarrow> Inl e
           | Inr d \<Rightarrow> Inr (sample_diffs @ [d])))"

text \<open>
  \<^verbatim>\<open>hits / n_trials\<close>: \<open>hits\<close> is a NumPy integer, so a zero divisor gives NaN (with a
  warning) and raises nothing. \<open>hits\<close> counts among \<open>nat n_trials\<close> values, so it is 0
  whenever \<open>n_trials\<close> is.
\<close>

definition np_true_divide :: "nat \<Rightarrow> int \<Rightarrow> float64" where
  "np_true_divide hits n_trials =
     (if n_trials = 0 then NaN else Fin (real hits / real_of_int n_trials))"

text \<open>
  The branch on \<open>alternative\<close> has no \<^verbatim>\<open>else\<close>: for any other string \<open>hits\<close> is never
  bound, and reading it in the return statement raises UnboundLocalError.
\<close>

definition count_hits :: "string \<Rightarrow> float64 list \<Rightarrow> float64 \<Rightarrow> nat option" where
  "count_hits alternative sample_diffs obs_diff =
     (if alternative = ''less'' then Some (length (filter (\<lambda>d. fle d obs_diff) sample_diffs))
      else if alternative = ''greater'' then Some (length (filter (\<lambda>d. fge d obs_diff) sample_diffs))
      else None)"

definition quantile_permtest ::
  "(nat \<Rightarrow> nat \<Rightarrow> nat) \<Rightarrow> float64 list \<Rightarrow> int list \<Rightarrow> real \<Rightarrow> string \<Rightarrow> int \<Rightarrow> error + float64" where
  "quantile_permtest rnd x y q alternative n_trials =
     (case permutation_loop rnd x y q (nat n_trials) of
        Inl e \<Rightarrow> Inl e
      | Inr sample_diffs \<Rightarrow>
          (case quantile_diff x y q of
             Inl e \<Rightarrow> Inl e
           | Inr obs_diff \<Rightarrow>
               (case count_hits alternative sample_diffs obs_diff of
                  None \<Rightarrow> Inl UnboundLocalError
                | Some hits \<Rightarrow> Inr (np_true_divide hits n_trials))))"

section \<open>create\_train\_test: the training and validation split\<close>

text \<open>
  A pandas DataFrame: its column labels, and its rows in order, each with its index label
  and its cells (one per column).
\<close>

record ('i, 'c, 'v) dataframe =
  columns :: "'c list"
  records :: "('i \<times> 'v list) list"

text \<open>The first position of a value in a list, if it occurs.\<close>

fun position :: "'a \<Rightarrow> 'a list \<Rightarrow> nat option" where
  "position a [] = None"
| "position a (b # bs) = (if b = a then Some 0 else map_option Suc (position a bs))"

text \<open>
  \<^verbatim>\<open>reviews.sort_values(order_by)\<close>: a new frame with the rows in ascending order of the
  column. A label that is no column raises KeyError, one that names several columns
  ValueError. pandas does not promise an order among rows with equal keys; the model keeps
  theirs, and the theorem on the split uses only that the result holds the same rows in
  ascending order of the key.
\<close>

definition sort_values ::
  "('i, 'c, 'v::linorder) dataframe \<Rightarrow> 'c \<Rightarrow> error + ('i, 'c, 'v) dataframe" where
  "sort_values df order_by =
     (case position order_by (columns df) of
        None \<Rightarrow> Inl KeyError
      | Some c \<Rightarrow>
          if 1 < count_list (columns df) order_by then Inl ValueError
          else Inr (df\<lparr>records := sort_key (\<lambda>r. snd r ! c) (records df)\<rparr>))"

text \<open>
  \<^verbatim>\<open>df.head(n)\<close>: the first \<open>n\<close> rows; for a negative \<open>n\<close>, all rows but the last \<open>-n\<close>.
\<close>

definition head :: "('i, 'c, 'v) dataframe \<Rightarrow> int \<Rightarrow> ('i, 'c, 'v) dataframe" where
  "head df n =
     df\<lparr>records :=
          (if 0 \<le> n then take (nat n) (records df)
           else take (length (records df) - nat (- n)) (records df))\<rparr>"

text \<open>
  \<^verbatim>\<open>df.iloc[start:stop]\<close>: Python's slice, where a negative bound counts from the end and
  every bound is clipped to the frame.
\<close>

definition slice_bound :: "nat \<Rightarrow> int \<Rightarrow> nat" where
  "slice_bound n k = (if k < 0 then nat (max (int n + k) 0) else min (nat k) n)"

definition iloc :: "('i, 'c, 'v) dataframe \<Rightarrow> int \<Rightarrow> int \<Rightarrow> ('i, 'c, 'v) dataframe" where
  "iloc df start stop =
     df\<lparr>records :=
          drop (slice_bound (length (records df)) start)
            (take (slice_bound (length (records df)) stop) (records df))\<rparr>"

definition create_train_test ::
  "('i, 'c, 'v::linorder) dataframe \<Rightarrow> 'c \<Rightarrow> int \<Rightarrow> int
     \<Rightarrow> error + ('i, 'c, 'v) dataframe \<times> ('i, 'c, 'v) dataframe" where
  "create_train_test reviews order_by training_size testing_size =
     (case sort_values reviews order_by of
        Inl e \<Rightarrow> Inl e
      | Inr reviews_new \<Rightarrow>
          (let training_df = head reviews_new training_size;
               validation_df = iloc reviews_new training_size (training_size + testing_size)
           in Inr (training_df, validation_df)))"

section \<open>Two-dimensional arrays\<close>

text \<open>
  A two-dimensional NumPy array: its number of columns (\<^verbatim>\<open>shape[1]\<close>) and its rows
  (\<^verbatim>\<open>shape[0]\<close> of them). In a well-shaped array every row has \<open>ncols\<close> entries.
\<close>

record ndarray =
  ncols :: nat
  rows :: "float64 list list"

definition shape :: "ndarray \<Rightarrow> nat \<times> nat" where
  "shape a = (length (rows a), ncols a)"

definition well_shaped :: "ndarray \<Rightarrow> bool" where
  "well_shaped a = list_all (\<lambda>r. length r = ncols a) (rows a)"

text \<open>
  \<^verbatim>\<open>a[i, j]\<close>, \<^verbatim>\<open>a[i, j] = v\<close>, \<^verbatim>\<open>a[i, :]\<close> and \<^verbatim>\<open>a[:, j]\<close>, for indices within the shape (the
  callers below test the range where the source can leave it).
\<close>

definition getitem :: "ndarray \<Rightarrow> nat \<Rightarrow> nat \<Rightarrow> float64" where
  "getitem a i j = rows a ! i ! j"

definition setitem :: "ndarray \<Rightarrow> nat \<Rightarrow> nat \<Rightarrow> float64 \<Rightarrow> ndarray" where
  "setitem a i j v = a\<lparr>rows := (rows a)[i := (rows a ! i)[j := v]]\<rparr>"

definition row_of :: "ndarray \<Rightarrow> nat \<Rightarrow> float64 list" where
  "row_of a i = rows a ! i"

definition column_of :: "ndarray \<Rightarrow> nat \<Rightarrow> float64 list" where
  "column_of a j = map (\<lambda>r. r ! j) (rows a)"

text \<open>\<^verbatim>\<open>np.dot\<close> of two vectors of one length.\<close>

fun dot :: "float64 list \<Rightarrow> float64 list \<Rightarrow> float64" where
  "dot (a # as) (b # bs) = fadd (fmul a b) (dot as bs)"
| "dot _ _ = Fin 0"

section \<open>predict\_rating\<close>

text \<open>
  The function reads the global \<^verbatim>\<open>train_data_df\<close> (users as index, movies as columns);
  it is a parameter here. \<^verbatim>\<open>np.where(series == id)[0][0]\<close> is the first position of the
  id, and indexing the empty match raises IndexError. A row or column index outside a
  matrix raises IndexError, and \<^verbatim>\<open>np.dot\<close> of vectors of different lengths ValueError.
\<close>

definition predict_rating ::
  "(int, int, float64) dataframe \<Rightarrow> ndarray \<Rightarrow> ndarray \<Rightarrow> int \<Rightarrow> int \<Rightarrow> error + float64" where
  "predict_rating train_data_df user_matrix movie_matrix user_id movie_id =
     (let user_ids_series = map fst (records train_data_df);
          movie_ids_series = columns train_data_df
      in case position user_id user_ids_series of
           None \<Rightarrow> Inl IndexError
         | Some user_row \<Rightarrow>
             (case position movie_id movie_ids_series of
                None \<Rightarrow> Inl IndexError
              | Some movie_col \<Rightarrow>
                  if length (rows user_matrix) \<le> user_row then Inl IndexError
                  else if ncols movie_matrix \<le> movie_col then Inl IndexError
                  else if ncols user_matrix = length (rows movie_matrix)
                  then Inr (dot (row_of user_matrix user_row) (column_of movie_matrix movie_col))
                  else Inl ValueError))"

section \<open>FunkSVD\<close>

text \<open>
  Arrays are objects that the caller and the function share, so they live in a store:
  an address is a position in \<open>heap\<close>, and a new array takes the next free position.
  \<open>stdout\<close> collects what \<^verbatim>\<open>print\<close> writes: a line of text, or the line of one
  iteration with its number and the mean squared error. \<open>rng\<close> is the state of NumPy's
  global random generator, given as the sequence of uniform draws it will hand out next;
  the caller can read it and draws from it after the call.
\<close>

datatype line = Text string | Stats nat float64

record world =
  heap :: "ndarray list"
  stdout :: "line list"
  rng :: "nat \<Rightarrow> real"

definition alloc :: "ndarray \<Rightarrow> world \<Rightarrow> world \<times> nat" where
  "alloc a w = (w\<lparr>heap := heap w @ [a]\<rparr>, length (heap w))"

definition load :: "world \<Rightarrow> nat \<Rightarrow> nat \<Rightarrow> nat \<Rightarrow> float64" where
  "load w p i j = getitem (heap w ! p) i j"

definition store :: "nat \<Rightarrow> nat \<Rightarrow> nat \<Rightarrow> float64 \<Rightarrow> world \<Rightarrow> world" where
  "store p i j v w = w\<lparr>heap := (heap w)[p := setitem (heap w ! p) i j v]\<rparr>"

definition py_print :: "line \<Rightarrow> world \<Rightarrow> world" where
  "py_print l w = w\<lparr>stdout := stdout w @ [l]\<rparr>"

text \<open>
  \<^verbatim>\<open>np.random.rand(n, m)\<close>: a new \<open>n\<close> by \<open>m\<close> array filled, row by row, with the next
  \<open>n * m\<close> draws of the global generator (each in [0, 1); nothing below depends on the
  range), which the call takes from the generator.
\<close>

definition uniform_array :: "(nat \<Rightarrow> real) \<Rightarrow> nat \<Rightarrow> nat \<Rightarrow> ndarray" where
  "uniform_array g n m =
     \<lparr>ncols = m, rows = map (\<lambda>i. map (\<lambda>j. Fin (g (i * m + j))) [0..<m]) [0..<n]\<rparr>"

definition rand :: "nat \<Rightarrow> nat \<Rightarrow> world \<Rightarrow> ndarray \<times> world" where
  "rand n m w = (uniform_array (rng w) n m, w\<lparr>rng := (\<lambda>k. rng w (k + n * m))\<rparr>)"

text \<open>\<^verbatim>\<open>np.count_nonzero(~np.isnan(ratings_mat))\<close>, a Python int.\<close>

definition count_observed :: "ndarray \<Rightarrow> nat" where
  "count_observed a = length (filter (\<lambda>v. \<not> isnan v) (concat (rows a)))"

text \<open>
  \<^verbatim>\<open>sse_accum\<close> starts each iteration as the Python int 0 and becomes a NumPy float with
  the first \<^verbatim>\<open>sse_accum += diff**2\<close>. The two divide differently by a zero
  \<^verbatim>\<open>num_ratings\<close>: the int raises ZeroDivisionError, the float gives NaN or an infinity
  (which cannot arise: an accumulated error means a rating above 0, which is counted).
\<close>

datatype number = PyInt int | NpFloat float64

fun add_square :: "number \<Rightarrow> float64 \<Rightarrow> number" where
  "add_square (PyInt n) diff = NpFloat (fadd (Fin (of_int n)) (fmul diff diff))"
| "add_square (NpFloat s) diff = NpFloat (fadd s (fmul diff diff))"

fun true_divide :: "number \<Rightarrow> nat \<Rightarrow> error + float64" where
  "true_divide (PyInt n) m =
     (if m = 0 then Inl ZeroDivisionError else Inr (Fin (of_int n / of_nat m)))"
| "true_divide (NpFloat s) m =
     (if m = 0 then Inr NaN else Inr (fmul s (Fin (1 / of_nat m))))"

text \<open>The local variables of FunkSVD that the loops read; the three arrays by address.\<close>

record locals =
  ratings_mat :: nat
  user_mat :: nat
  movie_mat :: nat
  latent_features :: nat
  learning_rate :: real
  n_users :: nat
  n_movies :: nat
  num_ratings :: nat

text \<open>
  The body of \<^verbatim>\<open>for k in range(latent_features)\<close>: the two assignments, in the source's
  order, each reading the store as the one before left it.
\<close>

definition update_factor :: "locals \<Rightarrow> float64 \<Rightarrow> nat \<Rightarrow> nat \<Rightarrow> nat \<Rightarrow> world \<Rightarrow> world" where
  "update_factor L diff i j k w =
     (let w1 = store (user_mat L) i k
                 (fadd (load w (user_mat L) i k)
                    (fmul (Fin (learning_rate L))
                       (fmul (fmul (Fin 2) diff) (load w (movie_mat L) k j)))) w
      in store (movie_mat L) k j
           (fadd (load w1 (movie_mat L) k j)
              (fmul (Fin (learning_rate L))
                 (fmul (fmul (Fin 2) diff) (load w1 (user_mat L) i k)))) w1)"

text \<open>The body of the loops over \<open>i\<close> and \<open>j\<close>, on the store and \<^verbatim>\<open>sse_accum\<close>.\<close>

definition visit_entry :: "locals \<Rightarrow> nat \<Rightarrow> nat \<Rightarrow> world \<times> number \<Rightarrow> world \<times> number" where
  "visit_entry L i j s =
     (let w = fst s; sse_accum = snd s in
      if fgt (load w (ratings_mat L) i j) (Fin 0)
      then
        (let diff = fsub (load w (ratings_mat L) i j)
                      (dot (row_of (heap w ! user_mat L) i) (column_of (heap w ! movie_mat L) j))
         in (fold (update_factor L diff i j) [0..<latent_features L] w,
             add_square sse_accum diff))
      else s)"

definition sweep :: "locals \<Rightarrow> world \<Rightarrow> world \<times> number" where
  "sweep L w =
     fold (\<lambda>i. fold (\<lambda>j. visit_entry L i j) [0..<n_movies L]) [0..<n_users L] (w, PyInt 0)"

text \<open>
  One iteration: the sweep over all user-movie pairs, then the printed line. The division
  in the printed line can raise, which ends the call; the second component is the
  exception raised, if any.
\<close>

definition iteration_body :: "locals \<Rightarrow> nat \<Rightarrow> world \<Rightarrow> world \<times> error option" where
  "iteration_body L iteration w =
     (let s = sweep L w in
      case true_divide (snd s) (num_ratings L) of
        Inl e \<Rightarrow> (fst s, Some e)
      | Inr mse \<Rightarrow> (py_print (Stats (iteration + 1) mse) (fst s), None))"

primrec iterations :: "locals \<Rightarrow> nat \<Rightarrow> world \<Rightarrow> world \<times> error option" where
  "iterations L 0 w = (w, None)"
| "iterations L (Suc n) w =
     (case snd (iterations L n w) of
        Some e \<Rightarrow> (fst (iterations L n w), Some e)
      | None \<Rightarrow> iteration_body L n (fst (iterations L n w)))"

text \<open>
  FunkSVD on the array at address \<open>ratings\<close>. The result is the store, the output and
  the generator as the call leaves them, and either the exception raised or the addresses
  of the two factor matrices.
\<close>

definition FunkSVD ::
  "nat \<Rightarrow> nat \<Rightarrow> real \<Rightarrow> nat \<Rightarrow> world \<Rightarrow> world \<times> (error + nat \<times> nat)" where
  "FunkSVD ratings latent rate iters w =
     (let users = length (rows (heap w ! ratings));
          movies = ncols (heap w ! ratings);
          observed = count_observed (heap w ! ratings);
          d1 = rand users latent w;
          a1 = alloc (fst d1) (snd d1);
          d2 = rand latent movies (fst a1);
          a2 = alloc (fst d2) (snd d2);
          w3 = py_print (Text ''Iterations | Mean Squared Error '')
                 (py_print (Text ''Optimizaiton Statistics'') (fst a2));
          L = \<lparr>ratings_mat = ratings, user_mat = snd a1, movie_mat = snd a2,
               latent_features = latent, learning_rate = rate,
               n_users = users, n_movies = movies, num_ratings = observed\<rparr>;
          r = iterations L iters w3
      in (fst r, case snd r of Some e \<Rightarrow> Inl e | None \<Rightarrow> Inr (user_mat L, movie_mat L)))"

text \<open>
  What the loops keep of a store: the number of arrays, the first \<open>n\<close> arrays
  themselves, the shape of every array, the lines already printed, and the generator.
\<close>

definition same_layout :: "nat \<Rightarrow> world \<Rightarrow> world \<Rightarrow> bool" where
  "same_layout n w w' =
     (length (heap w') = length (heap w) \<and>
      take n (heap w') = take n (heap w) \<and>
      map shape (heap w') = map shape (heap w) \<and>
      map well_shaped (heap w') = map well_shaped (heap w) \<and>
      take (length (stdout w)) (stdout w') = stdout w \<and>
      rng w' = rng w)"

text \<open>
  The two factor matrices as FunkSVD holds them while it trains: two different arrays of
  the store, \<open>n_users\<close> by \<open>latent_features\<close> and \<open>latent_features\<close> by \<open>n_movies\<close>.
\<close>

definition factors_fit :: "locals \<Rightarrow> world \<Rightarrow> bool" where
  "factors_fit L w =
     (user_mat L \<noteq> movie_mat L \<and>
      user_mat L < length (heap w) \<and> movie_mat L < length (heap w) \<and>
      well_shaped (heap w ! user_mat L) \<and>
      shape (heap w ! user_mat L) = (n_users L, latent_features L) \<and>
      well_shaped (heap w ! movie_mat L) \<and>
      shape (heap w ! movie_mat L) = (latent_features L, n_movies L))"

text \<open>
  The update as claim C2 words it, for comparison with \<open>update_factor\<close>: each factor of an
  entry with rating \<open>r\<close> is incremented by the learning rate times the gradient of the
  squared error \<open>(r - dot u m)\<^sup>2\<close> with respect to that factor, at the factors \<open>u\<close> and \<open>m\<close>
  held before the entry's update began. With \<open>diff = r - dot u m\<close>, that gradient is
  \<open>- 2 * diff\<close> times the other vector's factor (lemma \<open>squared_error_gradient\<close> below).
\<close>

definition claimed_gradient_step ::
  "real \<Rightarrow> float64 \<Rightarrow> float64 list \<Rightarrow> float64 list \<Rightarrow> float64 list \<times> float64 list" where
  "claimed_gradient_step rate r u m =
     (let diff = fsub r (dot u m)
      in (map2 (\<lambda>uk mk. fadd uk (fmul (Fin rate) (fmul (fmul (Fin (- 2)) diff) mk))) u m,
          map2 (\<lambda>uk mk. fadd mk (fmul (Fin rate) (fmul (fmul (Fin (- 2)) diff) uk))) u m))"

section \<open>Facts about the library calls\<close>

lemma length_permutation: "length (permutation r vs) = length vs"
  by (induction vs) (simp_all add: Let_def)

lemma mset_permutation: "mset (permutation r vs) = mset vs"
proof (induction vs)
  case Nil
  show ?case by simp
next
  case (Cons v vs)
  have "mset (take k p @ v # drop k p) = add_mset v (mset p)" for k and p :: "'a list"
    by (metis append_take_drop_id mset.simps(2) mset_append union_mset_add_mset_right)
  with Cons show ?case by (simp add: Let_def)
qed

lemma set_permutation: "set (permutation r vs) = set vs"
  by (metis mset_permutation set_mset_mset)

lemma percentile_returns:
  assumes "a \<noteq> []" and "0 \<le> p" and "p \<le> 100"
  shows "\<exists>v. percentile a p = Inr v"
  using assms by (simp add: percentile_def Let_def)

lemma mask_select_returns:
  assumes "length labels = length x" and "g \<in> set labels"
  shows "\<exists>sel. mask_select x labels g = Inr sel \<and> sel \<noteq> []"
proof -
  have "map snd (zip x labels) = labels"
    using assms(1) by (simp add: map_snd_zip)
  then have "g \<in> snd ` set (zip x labels)"
    using assms(2) by (metis set_map)
  then obtain vl where "vl \<in> set (zip x labels)" and "snd vl = g"
    by auto
  then have "filter (\<lambda>vl. snd vl = g) (zip x labels) \<noteq> []"
    by (auto simp: filter_empty_conv)
  then show ?thesis
    using assms(1) by (simp add: mask_select_def)
qed

lemma quantile_diff_returns:
  assumes "length labels = length x" and "0 \<in> set labels" and "1 \<in> set labels"
    and "0 \<le> q" and "q \<le> 1"
  shows "\<exists>d. quantile_diff x labels q = Inr d"
proof -
  obtain g0 where g0: "mask_select x labels 0 = Inr g0" "g0 \<noteq> []"
    using mask_select_returns [OF assms(1,2)] by blast
  obtain g1 where g1: "mask_select x labels 1 = Inr g1" "g1 \<noteq> []"
    using mask_select_returns [OF assms(1,3)] by blast
  have lvl: "0 \<le> 100 * q" "100 * q \<le> 100"
    using assms(4,5) by simp_all
  obtain cond_q where c: "percentile g0 (100 * q) = Inr cond_q"
    using percentile_returns [OF g0(2) lvl] by blast
  obtain exp_q where e: "percentile g1 (100 * q) = Inr exp_q"
    using percentile_returns [OF g1(2) lvl] by blast
  show ?thesis
    by (simp add: quantile_diff_def g0 g1 c e)
qed

lemma permutation_loop_returns:
  assumes "length y = length x" and "0 \<in> set y" and "1 \<in> set y"
    and "0 \<le> q" and "q \<le> 1"
  shows "\<exists>diffs. permutation_loop rnd x y q n = Inr diffs \<and> length diffs = n \<and>
           (\<forall>t<n. quantile_diff x (permutation (rnd t) y) q = Inr (diffs ! t))"
proof (induction n)
  case 0
  show ?case by simp
next
  case (Suc n)
  then obtain diffs where ih: "permutation_loop rnd x y q n = Inr diffs" "length diffs = n"
      "\<forall>t<n. quantile_diff x (permutation (rnd t) y) q = Inr (diffs ! t)"
    by blast
  obtain d where d: "quantile_diff x (permutation (rnd n) y) q = Inr d"
    using quantile_diff_returns [of "permutation (rnd n) y" x q] assms
    by (auto simp: length_permutation set_permutation)
  have "\<forall>t<Suc n. quantile_diff x (permutation (rnd t) y) q = Inr ((diffs @ [d]) ! t)"
    using ih(2,3) d by (auto simp: nth_append less_Suc_eq)
  then show ?case
    using ih(1,2) d by simp
qed


section \<open>The permutation test's p-value\<close>








text \<open>
  C10. For an \<open>alternative\<close> other than \<^verbatim>\<open>'less'\<close> and \<^verbatim>\<open>'greater'\<close>, quantile\_permtest
  never returns a p-value; on inputs for which the statements before the return succeed
  (labels of the data's length with both groups present, a quantile in [0, 1]) the call
  ends in UnboundLocalError, raised by the read of the unassigned \<open>hits\<close>.
\<close>

theorem quantile_permtest_unbound_hits:
  assumes "alternative \<noteq> ''less''" and "alternative \<noteq> ''greater''"
  shows "(\<forall>p. quantile_permtest rnd x y q alternative n_trials \<noteq> Inr p) \<and>
         (length y = length x \<and> 0 \<in> set y \<and> 1 \<in> set y \<and> 0 \<le> q \<and> q \<le> 1 \<longrightarrow>
            quantile_permtest rnd x y q alternative n_trials = Inl UnboundLocalError)"
proof -
  have none: "count_hits alternative ds obs = None" for ds obs
    using assms by (simp add: count_hits_def)
  have never: "\<forall>p. quantile_permtest rnd x y q alternative n_trials \<noteq> Inr p"
    by (simp add: quantile_permtest_def none split: sum.split)
  have raises: "quantile_permtest rnd x y q alternative n_trials = Inl UnboundLocalError"
    if wf: "length y = length x \<and> 0 \<in> set y \<and> 1 \<in> set y \<and> 0 \<le> q \<and> q \<le> 1"
  proof -
    obtain diffs where loop: "permutation_loop rnd x y q (nat n_trials) = Inr diffs"
      using permutation_loop_returns [of y x q rnd "nat n_trials"] wf by blast
    obtain obs where obs: "quantile_diff x y q = Inr obs"
      using quantile_diff_returns [of y x q] wf by blast
    show ?thesis
      by (simp add: quantile_permtest_def loop obs none)
  qed
  show ?thesis using never raises by blast
qed

theorem quantile_permtest_unbound_hits_witness:
  "quantile_permtest (\<lambda>t k. t) [Fin 1, Fin 2, Fin 3] [0, 1, 1] (1/2) ''two-sided'' 2
     = Inl UnboundLocalError"
  using quantile_permtest_unbound_hits
    [where alternative = "''two-sided''" and y = "[0, 1, 1]" and x = "[Fin 1, Fin 2, Fin 3]"
       and q = "1/2" and rnd = "\<lambda>t k. t" and n_trials = 2]
  by simp

section \<open>The bootstrap confidence interval\<close>






section \<open>The split and the prediction\<close>

lemma position_None: "a \<notin> set xs \<Longrightarrow> position a xs = None"
  by (induction xs) auto

lemma position_Some:
  "a \<in> set xs \<Longrightarrow> \<exists>i. position a xs = Some i \<and> i < length xs \<and> xs ! i = a"
  by (induction xs) auto

lemma position_in_set: "position a xs = Some i \<Longrightarrow> a \<in> set xs"
  by (induction xs arbitrary: i) (auto split: if_splits)

lemma count_list_position:
  "count_list xs a = 1 \<Longrightarrow> \<exists>i. position a xs = Some i \<and> i < length xs \<and> xs ! i = a"
proof -
  assume "count_list xs a = 1"
  then have "a \<in> set xs"
    by (metis count_list_0_iff zero_neq_one)
  then show ?thesis by (rule position_Some)
qed

lemma slice_bound_nonneg: "0 \<le> k \<Longrightarrow> slice_bound n k = min (nat k) n"
  by (simp add: slice_bound_def)

lemma slice_take_drop:
  "drop (min a (length xs)) (take (min b (length xs)) xs) = take (b - a) (drop a xs)"
proof -
  have t: "take (min b (length xs)) xs = take b xs"
    by (simp add: min_def)
  show ?thesis
  proof (cases "a \<le> length xs")
    case True
    then show ?thesis by (simp add: t min_def drop_take)
  next
    case False
    then show ?thesis by (simp add: t min_def)
  qed
qed

lemma take_append_next: "take a xs @ take b (drop a xs) = take (a + b) xs"
  by (simp add: take_add)

lemma take_next_disjoint:
  assumes "distinct xs"
  shows "set (take a xs) \<inter> set (take b (drop a xs)) = {}"
proof -
  have "set (take a xs) \<inter> set (drop a xs) = {}"
    using assms by (simp add: set_take_disj_set_drop_if_distinct)
  moreover have "set (take b (drop a xs)) \<subseteq> set (drop a xs)"
    by (rule set_take_subset)
  ultimately show ?thesis by blast
qed

text \<open>
  C5. For a frame in which \<open>order_by\<close> names exactly one column, and sizes
  \<open>training_size\<close> and \<open>testing_size\<close> that are not negative, create\_train\_test returns
  as training set the first \<open>training_size\<close> rows of the frame sorted by that column, and
  as validation set the next \<open>testing_size\<close> rows. The two are consecutive stretches of
  the sorted frame, and they share no row when the frame's rows are pairwise different
  (as they are when the index labels are unique).
\<close>

theorem create_train_test_split:
  assumes "count_list (columns reviews) order_by = 1"
    and "0 \<le> training_size" and "0 \<le> testing_size"
  shows "\<exists>c sorted_rows training_df validation_df.
           position order_by (columns reviews) = Some c \<and>
           mset sorted_rows = mset (records reviews) \<and>
           sorted (map (\<lambda>r. snd r ! c) sorted_rows) \<and>
           create_train_test reviews order_by training_size testing_size
             = Inr (training_df, validation_df) \<and>
           columns training_df = columns reviews \<and>
           columns validation_df = columns reviews \<and>
           records training_df = take (nat training_size) sorted_rows \<and>
           records validation_df = take (nat testing_size) (drop (nat training_size) sorted_rows) \<and>
           records training_df @ records validation_df
             = take (nat training_size + nat testing_size) sorted_rows \<and>
           (distinct (records reviews) \<longrightarrow>
              set (records training_df) \<inter> set (records validation_df) = {})"
proof -
  obtain c where c: "position order_by (columns reviews) = Some c"
    using count_list_position [OF assms(1)] by blast
  define sorted_rows where "sorted_rows = sort_key (\<lambda>r. snd r ! c) (records reviews)"
  define reviews_new where "reviews_new = reviews\<lparr>records := sorted_rows\<rparr>"
  define training_df where "training_df = head reviews_new training_size"
  define validation_df where
    "validation_df = iloc reviews_new training_size (training_size + testing_size)"
  have sv: "sort_values reviews order_by = Inr reviews_new"
    using assms(1) by (simp add: sort_values_def c reviews_new_def sorted_rows_def)
  have res: "create_train_test reviews order_by training_size testing_size
               = Inr (training_df, validation_df)"
    by (simp add: create_train_test_def sv training_df_def validation_df_def)
  have m: "mset sorted_rows = mset (records reviews)"
    by (simp add: sorted_rows_def)
  have s: "sorted (map (\<lambda>r. snd r ! c) sorted_rows)"
    by (simp add: sorted_rows_def)
  have tr: "records training_df = take (nat training_size) sorted_rows"
    using assms(2) by (simp add: training_df_def head_def reviews_new_def)
  have sum: "nat (training_size + testing_size) = nat training_size + nat testing_size"
    using assms(2,3) by (simp add: nat_add_distrib)
  have "records validation_df
          = drop (min (nat training_size) (length sorted_rows))
              (take (min (nat training_size + nat testing_size) (length sorted_rows)) sorted_rows)"
    using assms(2,3) by (simp add: validation_df_def iloc_def reviews_new_def slice_bound_nonneg sum)
  then have va: "records validation_df
                   = take (nat testing_size) (drop (nat training_size) sorted_rows)"
    by (simp only: slice_take_drop add_diff_cancel_left')
  have cols: "columns training_df = columns reviews" "columns validation_df = columns reviews"
    by (simp_all add: training_df_def validation_df_def head_def iloc_def reviews_new_def)
  have app: "records training_df @ records validation_df
               = take (nat training_size + nat testing_size) sorted_rows"
    by (simp only: tr va take_append_next)
  have dis: "distinct (records reviews) \<longrightarrow>
               set (records training_df) \<inter> set (records validation_df) = {}"
  proof
    assume "distinct (records reviews)"
    then have "distinct sorted_rows" by (simp add: sorted_rows_def)
    then show "set (records training_df) \<inter> set (records validation_df) = {}"
      by (simp only: tr va take_next_disjoint)
  qed
  show ?thesis
    using c m s res cols tr va app dis by blast
qed


theorem create_train_test_split_witness:
  "create_train_test
     \<lparr>columns = [''user_id'', ''date''],
      records = [(0::nat, [7::int, 30]), (1, [8, 10]), (2, [9, 20]), (3, [7, 40])]\<rparr> ''date'' 2 1
   = Inr (\<lparr>columns = [''user_id'', ''date''], records = [(1, [8, 10]), (2, [9, 20])]\<rparr>,
          \<lparr>columns = [''user_id'', ''date''], records = [(0, [7, 30])]\<rparr>)"
  using create_train_test_split
    [where reviews = "\<lparr>columns = [''user_id'', ''date''],
      records = [(0::nat, [7::int, 30]), (1, [8, 10]), (2, [9, 20]), (3, [7, 40])]\<rparr>"
      and order_by = "''date''" and training_size = 2 and testing_size = 1]
  by (simp add: create_train_test_def sort_values_def head_def iloc_def slice_bound_def)

text \<open>
  C6. For a user id in the training frame's index and a movie id among its columns, and
  factor matrices of the frame's shape (as many user rows as the index has entries, as
  many movie columns as the frame has, one number of latent features), predict\_rating
  returns the dot product of the user matrix's row at the id's position in the index and
  the movie matrix's column at the id's position among the columns.
\<close>

theorem predict_rating_dot:
  assumes "user_id \<in> set (map fst (records train_data_df))"
    and "movie_id \<in> set (columns train_data_df)"
    and "length (rows user_matrix) = length (records train_data_df)"
    and "ncols movie_matrix = length (columns train_data_df)"
    and "ncols user_matrix = length (rows movie_matrix)"
    and "well_shaped user_matrix" and "well_shaped movie_matrix"
  shows "\<exists>user_row movie_col.
           position user_id (map fst (records train_data_df)) = Some user_row \<and>
           position movie_id (columns train_data_df) = Some movie_col \<and>
           user_row < length (rows user_matrix) \<and> movie_col < ncols movie_matrix \<and>
           map fst (records train_data_df) ! user_row = user_id \<and>
           columns train_data_df ! movie_col = movie_id \<and>
           length (rows user_matrix ! user_row) = length (map (\<lambda>r. r ! movie_col) (rows movie_matrix)) \<and>
           predict_rating train_data_df user_matrix movie_matrix user_id movie_id
             = Inr (dot (rows user_matrix ! user_row)
                        (map (\<lambda>r. r ! movie_col) (rows movie_matrix)))"
proof -
  obtain user_row where u: "position user_id (map fst (records train_data_df)) = Some user_row"
      "user_row < length (map fst (records train_data_df))"
      "map fst (records train_data_df) ! user_row = user_id"
    using position_Some [OF assms(1)] by blast
  obtain movie_col where m: "position movie_id (columns train_data_df) = Some movie_col"
      "movie_col < length (columns train_data_df)"
      "columns train_data_df ! movie_col = movie_id"
    using position_Some [OF assms(2)] by blast
  have ur: "user_row < length (rows user_matrix)"
    using u(2) assms(3) by simp
  have mc: "movie_col < ncols movie_matrix"
    using m(2) assms(4) by simp
  have "length (rows user_matrix ! user_row) = ncols user_matrix"
    using assms(6) ur by (simp add: well_shaped_def list_all_length)
  then have len: "length (rows user_matrix ! user_row)
                    = length (map (\<lambda>r. r ! movie_col) (rows movie_matrix))"
    using assms(5) by simp
  have "predict_rating train_data_df user_matrix movie_matrix user_id movie_id
             = Inr (dot (rows user_matrix ! user_row)
                        (map (\<lambda>r. r ! movie_col) (rows movie_matrix)))"
    using ur mc assms(5) by (simp add: predict_rating_def u(1) m(1) row_of_def column_of_def)
  then show ?thesis
    using u(1,3) m(1,3) ur mc len by blast
qed

theorem predict_rating_dot_witness:
  "predict_rating \<lparr>columns = [2844, 100], records = [(8, [NaN, Fin 4]), (9, [Fin 7, NaN])]\<rparr>
     \<lparr>ncols = 2, rows = [[Fin 1, Fin 2], [Fin 3, Fin 4]]\<rparr>
     \<lparr>ncols = 2, rows = [[Fin 5, Fin 6], [Fin 7, Fin 8]]\<rparr> 9 2844 = Inr (Fin 43)"
  using predict_rating_dot
    [where train_data_df = "\<lparr>columns = [2844, 100], records = [(8, [NaN, Fin 4]), (9, [Fin 7, NaN])]\<rparr>"
       and user_matrix = "\<lparr>ncols = 2, rows = [[Fin 1, Fin 2], [Fin 3, Fin 4]]\<rparr>"
       and movie_matrix = "\<lparr>ncols = 2, rows = [[Fin 5, Fin 6], [Fin 7, Fin 8]]\<rparr>"
       and user_id = 9 and movie_id = 2844]
  by (auto simp: well_shaped_def)

text \<open>
  C8. predict\_rating returns a prediction only for a user id in the training frame's
  index and a movie id among its columns; when either is absent, the position lookup is
  empty and the call ends in IndexError.
\<close>

theorem predict_rating_partial:
  "(user_id \<notin> set (map fst (records train_data_df)) \<or> movie_id \<notin> set (columns train_data_df) \<longrightarrow>
      predict_rating train_data_df user_matrix movie_matrix user_id movie_id = Inl IndexError) \<and>
   ((\<exists>pred. predict_rating train_data_df user_matrix movie_matrix user_id movie_id = Inr pred) \<longrightarrow>
      user_id \<in> set (map fst (records train_data_df)) \<and> movie_id \<in> set (columns train_data_df))"
proof -
  have absent: "predict_rating train_data_df user_matrix movie_matrix user_id movie_id = Inl IndexError"
    if "user_id \<notin> set (map fst (records train_data_df)) \<or> movie_id \<notin> set (columns train_data_df)"
  proof (cases "user_id \<in> set (map fst (records train_data_df))")
    case False
    then show ?thesis
      by (simp add: predict_rating_def position_None)
  next
    case True
    then have "movie_id \<notin> set (columns train_data_df)" using that by blast
    then show ?thesis
      by (simp add: predict_rating_def position_None split: option.split)
  qed
  then show ?thesis by force
qed

theorem predict_rating_partial_witness:
  "predict_rating \<lparr>columns = [2844, 100], records = [(8, [NaN, Fin 4]), (9, [Fin 7, NaN])]\<rparr>
     \<lparr>ncols = 2, rows = [[Fin 1, Fin 2], [Fin 3, Fin 4]]\<rparr>
     \<lparr>ncols = 2, rows = [[Fin 5, Fin 6], [Fin 7, Fin 8]]\<rparr> 9 1598822 = Inl IndexError"
  using predict_rating_partial
    [where train_data_df = "\<lparr>columns = [2844, 100], records = [(8, [NaN, Fin 4]), (9, [Fin 7, NaN])]\<rparr>"
       and user_matrix = "\<lparr>ncols = 2, rows = [[Fin 1, Fin 2], [Fin 3, Fin 4]]\<rparr>"
       and movie_matrix = "\<lparr>ncols = 2, rows = [[Fin 5, Fin 6], [Fin 7, Fin 8]]\<rparr>"
       and user_id = 9 and movie_id = 1598822]
  by simp

section \<open>FunkSVD: what training keeps\<close>

lemma same_layout_refl: "same_layout n w w"
  by (simp add: same_layout_def)

lemma take_prefix_trans:
  assumes "take (length a) b = a" and "take (length b) c = b"
  shows "take (length a) c = a"
proof -
  have "length (take (length a) b) = length a"
    using assms(1) by simp
  then have "length a \<le> length b"
    by simp
  then have "take (length a) (take (length b) c) = take (length a) c"
    by (simp add: min_def)
  then show ?thesis using assms by simp
qed

lemma same_layout_trans:
  assumes "same_layout n a b" and "same_layout n b c"
  shows "same_layout n a c"
  using assms take_prefix_trans [of "stdout a" "stdout b" "stdout c"]
  by (simp add: same_layout_def)

lemma shape_setitem: "shape (setitem a i j v) = shape a"
  by (simp add: shape_def setitem_def)

lemma well_shaped_setitem: "well_shaped (setitem a i j v) = well_shaped a"
proof -
  have "length ((rows a)[i := (rows a ! i)[j := v]] ! k) = length (rows a ! k)"
    if "k < length (rows a)" for k
    using that by (cases "i = k") simp_all
  then show ?thesis
    by (simp add: well_shaped_def setitem_def list_all_length)
qed

lemma map_update_same:
  assumes "f y = f (xs ! p)"
  shows "map f (xs[p := y]) = map f xs"
proof (cases "p < length xs")
  case True
  then show ?thesis using assms by (simp add: map_update list_update_same_conv)
next
  case False
  then have "xs[p := y] = xs" by (simp add: list_update_beyond)
  then show ?thesis by simp
qed

lemma same_layout_store:
  assumes "n \<le> p"
  shows "same_layout n w (store p i j v w)"
  using assms
  by (simp add: same_layout_def store_def map_update_same shape_setitem well_shaped_setitem)

lemma same_layout_print: "same_layout n w (py_print l w)"
  by (simp add: same_layout_def py_print_def)

lemma same_layout_update_factor:
  assumes "n \<le> user_mat L" and "n \<le> movie_mat L"
  shows "same_layout n w (update_factor L diff i j k w)"
  unfolding update_factor_def Let_def
  by (rule same_layout_trans [OF same_layout_store [OF assms(1)] same_layout_store [OF assms(2)]])

lemma same_layout_fold:
  assumes "\<And>x s. same_layout n s (f x s)"
  shows "same_layout n w (fold f xs w)"
proof (induction xs arbitrary: w)
  case Nil
  show ?case by (simp add: same_layout_refl)
next
  case (Cons x xs)
  have "same_layout n w (f x w)" by (rule assms)
  moreover have "same_layout n (f x w) (fold f xs (f x w))" by (rule Cons.IH)
  ultimately show ?case
    using same_layout_trans by simp
qed

lemma same_layout_fold_fst:
  assumes "\<And>x s. same_layout n (fst s) (fst (f x s))"
  shows "same_layout n (fst s) (fst (fold f xs s))"
proof (induction xs arbitrary: s)
  case Nil
  show ?case by (simp add: same_layout_refl)
next
  case (Cons x xs)
  have "same_layout n (fst s) (fst (f x s))" by (rule assms)
  moreover have "same_layout n (fst (f x s)) (fst (fold f xs (f x s)))" by (rule Cons.IH)
  ultimately show ?case
    using same_layout_trans by simp
qed

lemma same_layout_visit_entry:
  assumes "n \<le> user_mat L" and "n \<le> movie_mat L"
  shows "same_layout n (fst s) (fst (visit_entry L i j s))"
  by (simp add: visit_entry_def Let_def same_layout_refl
      same_layout_fold [OF same_layout_update_factor [OF assms]])

lemma same_layout_sweep:
  assumes "n \<le> user_mat L" and "n \<le> movie_mat L"
  shows "same_layout n w (fst (sweep L w))"
proof -
  have inner: "same_layout n (fst s) (fst (fold (\<lambda>j. visit_entry L i j) js s))" for i js s
    by (rule same_layout_fold_fst) (rule same_layout_visit_entry [OF assms])
  have "same_layout n (fst (w, PyInt 0))
          (fst (fold (\<lambda>i. fold (\<lambda>j. visit_entry L i j) [0..<n_movies L]) [0..<n_users L] (w, PyInt 0)))"
    by (rule same_layout_fold_fst) (rule inner)
  then show ?thesis by (simp add: sweep_def)
qed

lemma same_layout_iteration_body:
  assumes "n \<le> user_mat L" and "n \<le> movie_mat L"
  shows "same_layout n w (fst (iteration_body L it w))"
proof (cases "true_divide (snd (sweep L w)) (num_ratings L)")
  case (Inl e)
  then show ?thesis
    by (simp add: iteration_body_def Let_def same_layout_sweep [OF assms])
next
  case (Inr mse)
  have "same_layout n w (py_print (Stats (it + 1) mse) (fst (sweep L w)))"
    by (rule same_layout_trans [OF same_layout_sweep [OF assms] same_layout_print])
  then show ?thesis
    using Inr by (simp add: iteration_body_def Let_def)
qed

lemma same_layout_iterations:
  assumes "n \<le> user_mat L" and "n \<le> movie_mat L"
  shows "same_layout n w (fst (iterations L k w))"
proof (induction k)
  case 0
  show ?case by (simp add: same_layout_refl)
next
  case (Suc k)
  show ?case
  proof (cases "snd (iterations L k w)")
    case (Some e)
    then show ?thesis using Suc by simp
  next
    case None
    have "same_layout n (fst (iterations L k w)) (fst (iteration_body L k (fst (iterations L k w))))"
      by (rule same_layout_iteration_body [OF assms])
    then show ?thesis
      using None Suc same_layout_trans by simp
  qed
qed

lemma true_divide_returns: "0 < m \<Longrightarrow> \<exists>mse. true_divide s m = Inr mse"
  by (cases s) simp_all

lemma iteration_body_returns:
  "0 < num_ratings L \<Longrightarrow> snd (iteration_body L it w) = None"
  using true_divide_returns [of "num_ratings L" "snd (sweep L w)"]
  by (auto simp: iteration_body_def Let_def)

lemma iterations_returns:
  "0 < num_ratings L \<or> k = 0 \<Longrightarrow> snd (iterations L k w) = None"
  by (induction k) (simp_all add: iteration_body_returns)

lemma shape_uniform_array: "shape (uniform_array g n m) = (n, m)"
  by (simp add: shape_def uniform_array_def)

lemma well_shaped_uniform_array: "well_shaped (uniform_array g n m)"
  by (simp add: well_shaped_def uniform_array_def list_all_iff)

text \<open>The store and the local variables with which FunkSVD enters its loop.\<close>

lemma FunkSVD_unfold:
  "FunkSVD ratings latent rate iters w =
     (let users = length (rows (heap w ! ratings));
          movies = ncols (heap w ! ratings);
          L = \<lparr>ratings_mat = ratings, user_mat = length (heap w), movie_mat = Suc (length (heap w)),
               latent_features = latent, learning_rate = rate,
               n_users = users, n_movies = movies,
               num_ratings = count_observed (heap w ! ratings)\<rparr>;
          w3 = w\<lparr>rng := (\<lambda>k. rng w (k + latent * movies + users * latent)),
                 heap := heap w @ [uniform_array (rng w) users latent,
                                   uniform_array (\<lambda>k. rng w (k + users * latent)) latent movies],
                 stdout := stdout w @ [Text ''Optimizaiton Statistics'',
                                       Text ''Iterations | Mean Squared Error '']\<rparr>;
          r = iterations L iters w3
      in (fst r, case snd r of Some e \<Rightarrow> Inl e
                 | None \<Rightarrow> Inr (length (heap w), Suc (length (heap w)))))"
  by (simp add: FunkSVD_def alloc_def rand_def py_print_def Let_def split: option.split)

lemmas funk_defs = FunkSVD_def alloc_def rand_def uniform_array_def py_print_def
  count_observed_def iteration_body_def sweep_def visit_entry_def update_factor_def load_def
  store_def getitem_def setitem_def row_of_def column_of_def Let_def

lemma same_layout_nth:
  assumes "same_layout n w w'" and "p < length (heap w)"
  shows "shape (heap w' ! p) = shape (heap w ! p)"
    and "well_shaped (heap w' ! p) = well_shaped (heap w ! p)"
proof -
  have len: "p < length (heap w')"
    using assms by (simp add: same_layout_def)
  have "map shape (heap w') ! p = map shape (heap w) ! p"
    using assms(1) by (simp add: same_layout_def)
  then show "shape (heap w' ! p) = shape (heap w ! p)"
    using len assms(2) by simp
  have "map well_shaped (heap w') ! p = map well_shaped (heap w) ! p"
    using assms(1) by (simp add: same_layout_def)
  then show "well_shaped (heap w' ! p) = well_shaped (heap w ! p)"
    using len assms(2) by simp
qed

lemma FunkSVD_layout:
  fixes ratings latent rate iters w
  defines "users \<equiv> length (rows (heap w ! ratings))"
    and "movies \<equiv> ncols (heap w ! ratings)"
  defines "w3 \<equiv> w\<lparr>rng := (\<lambda>k. rng w (k + latent * movies + users * latent)),
                 heap := heap w @ [uniform_array (rng w) users latent,
                                   uniform_array (\<lambda>k. rng w (k + users * latent)) latent movies],
                 stdout := stdout w @ [Text ''Optimizaiton Statistics'',
                                       Text ''Iterations | Mean Squared Error '']\<rparr>"
  shows "same_layout (length (heap w)) w3 (fst (FunkSVD ratings latent rate iters w))"
  unfolding FunkSVD_unfold Let_def w3_def users_def movies_def
  by (simp add: same_layout_iterations)

text \<open>
  C9, as amended. Whatever the input and however the call ends, FunkSVD leaves every array
  that existed before the call as it was (the ratings matrix among them), adds exactly two
  arrays to the store, and only appends to what was printed; the two matrices it returns
  are the two new arrays. Besides printing, one more piece of state that the caller sees
  changes: NumPy's global random generator, from which the two calls of
  \<^verbatim>\<open>np.random.rand\<close> take \<open>n_users * latent_features + latent_features * n_movies\<close> draws.
\<close>

theorem FunkSVD_frame:
  "take (length (heap w)) (heap (fst (FunkSVD ratings latent rate iters w))) = heap w \<and>
   length (heap (fst (FunkSVD ratings latent rate iters w))) = length (heap w) + 2 \<and>
   take (length (stdout w)) (stdout (fst (FunkSVD ratings latent rate iters w))) = stdout w \<and>
   rng (fst (FunkSVD ratings latent rate iters w))
     = (\<lambda>k. rng w (k + (length (rows (heap w ! ratings)) * latent
                          + latent * ncols (heap w ! ratings)))) \<and>
   (ratings < length (heap w) \<longrightarrow>
      heap (fst (FunkSVD ratings latent rate iters w)) ! ratings = heap w ! ratings) \<and>
   (\<forall>user_mat movie_mat.
      snd (FunkSVD ratings latent rate iters w) = Inr (user_mat, movie_mat) \<longrightarrow>
        user_mat = length (heap w) \<and> movie_mat = length (heap w) + 1)"
proof -
  define users where "users = length (rows (heap w ! ratings))"
  define movies where "movies = ncols (heap w ! ratings)"
  define w3 where "w3 = w\<lparr>rng := (\<lambda>k. rng w (k + latent * movies + users * latent)),
                 heap := heap w @ [uniform_array (rng w) users latent,
                                   uniform_array (\<lambda>k. rng w (k + users * latent)) latent movies],
                 stdout := stdout w @ [Text ''Optimizaiton Statistics'',
                                       Text ''Iterations | Mean Squared Error '']\<rparr>"
  define w' where "w' = fst (FunkSVD ratings latent rate iters w)"
  have lay: "same_layout (length (heap w)) w3 w'"
    unfolding w3_def w'_def users_def movies_def by (rule FunkSVD_layout)
  have old: "take (length (heap w)) (heap w') = heap w"
    using lay by (simp add: same_layout_def w3_def)
  have len: "length (heap w') = length (heap w) + 2"
    using lay by (simp add: same_layout_def w3_def)
  have "take (length (stdout w3)) (stdout w') = stdout w3"
    using lay by (simp add: same_layout_def)
  moreover have "take (length (stdout w)) (stdout w3) = stdout w"
    by (simp add: w3_def)
  ultimately have out: "take (length (stdout w)) (stdout w') = stdout w"
    by (rule take_prefix_trans [rotated])
  have g1: "rng w' = (\<lambda>k. rng w (k + latent * movies + users * latent))"
    using lay by (simp add: same_layout_def w3_def)
  have g2: "(\<lambda>k. rng w (k + latent * movies + users * latent))
              = (\<lambda>k. rng w (k + (users * latent + latent * movies)))"
    by (simp add: ac_simps)
  have "rng w' = (\<lambda>k. rng w (k + (users * latent + latent * movies)))"
    by (simp only: g1 g2)
  then have gen: "rng w' = (\<lambda>k. rng w (k + (length (rows (heap w ! ratings)) * latent
                                               + latent * ncols (heap w ! ratings))))"
    by (simp only: users_def movies_def)
  have arg: "heap w' ! ratings = heap w ! ratings" if "ratings < length (heap w)"
  proof -
    have "take (length (heap w)) (heap w') ! ratings = heap w' ! ratings"
      using that by simp
    then show ?thesis using old by simp
  qed
  have fresh: "user_mat = length (heap w) \<and> movie_mat = length (heap w) + 1"
    if "snd (FunkSVD ratings latent rate iters w) = Inr (user_mat, movie_mat)"
    for user_mat movie_mat
    using that by (simp add: FunkSVD_unfold Let_def split: option.splits)
  show ?thesis
    using old len out gen arg fresh unfolding w'_def by blast
qed

theorem FunkSVD_frame_witness:
  "heap (fst (FunkSVD 0 1 (1/2) 1
           \<lparr>heap = [\<lparr>ncols = 1, rows = [[Fin 1]]\<rparr>], stdout = [],
            rng = (\<lambda>k. 1 / (real k + 2))\<rparr>)) ! 0
     = \<lparr>ncols = 1, rows = [[Fin 1]]\<rparr> \<and>
   length (heap (fst (FunkSVD 0 1 (1/2) 1
           \<lparr>heap = [\<lparr>ncols = 1, rows = [[Fin 1]]\<rparr>], stdout = [],
            rng = (\<lambda>k. 1 / (real k + 2))\<rparr>))) = 3 \<and>
   rng (fst (FunkSVD 0 1 (1/2) 1
           \<lparr>heap = [\<lparr>ncols = 1, rows = [[Fin 1]]\<rparr>], stdout = [],
            rng = (\<lambda>k. 1 / (real k + 2))\<rparr>)) 0 = 1/4"
  using FunkSVD_frame
    [where w = "\<lparr>heap = [\<lparr>ncols = 1, rows = [[Fin 1]]\<rparr>], stdout = [],
                  rng = (\<lambda>k. 1 / (real k + 2))\<rparr>"
       and ratings = 0 and latent = 1 and rate = "1/2" and iters = 1]
  by simp

text \<open>
  The generator is not as the call found it: after FunkSVD on a one-by-one ratings matrix
  with one latent feature, two draws are gone, and the next draw is the third of the
  sequence (1/4) where it was the first (1/2).
\<close>

theorem FunkSVD_advances_generator:
  "rng (fst (FunkSVD 0 1 (1/2) 1
          \<lparr>heap = [\<lparr>ncols = 1, rows = [[Fin 1]]\<rparr>], stdout = [],
           rng = (\<lambda>k. 1 / (real k + 2))\<rparr>)) 0 = 1/4 \<and>
   rng \<lparr>heap = [\<lparr>ncols = 1, rows = [[Fin 1]]\<rparr>], stdout = [],
        rng = (\<lambda>k. 1 / (real k + 2))\<rparr> 0 = 1/2 \<and>
   rng (fst (FunkSVD 0 1 (1/2) 1
          \<lparr>heap = [\<lparr>ncols = 1, rows = [[Fin 1]]\<rparr>], stdout = [],
           rng = (\<lambda>k. 1 / (real k + 2))\<rparr>))
     \<noteq> rng \<lparr>heap = [\<lparr>ncols = 1, rows = [[Fin 1]]\<rparr>], stdout = [],
             rng = (\<lambda>k. 1 / (real k + 2))\<rparr>"
proof -
  define w0 where "w0 = \<lparr>heap = [\<lparr>ncols = 1, rows = [[Fin 1]]\<rparr>], stdout = [],
                         rng = (\<lambda>k. 1 / (real k + 2))\<rparr>"
  have lay: "same_layout (length (heap w0))
               (w0\<lparr>rng := (\<lambda>k. rng w0 (k + 1 * ncols (heap w0 ! 0)
                                                 + length (rows (heap w0 ! 0)) * 1)),
                    heap := heap w0 @ [uniform_array (rng w0) (length (rows (heap w0 ! 0))) 1,
                       uniform_array (\<lambda>k. rng w0 (k + length (rows (heap w0 ! 0)) * 1)) 1
                         (ncols (heap w0 ! 0))],
                    stdout := stdout w0 @ [Text ''Optimizaiton Statistics'',
                                           Text ''Iterations | Mean Squared Error '']\<rparr>)
               (fst (FunkSVD 0 1 (1/2) 1 w0))"
    by (rule FunkSVD_layout)
  have after: "rng (fst (FunkSVD 0 1 (1/2) 1 w0)) 0 = 1/4"
    using lay by (simp add: same_layout_def w0_def)
  have before: "rng w0 0 = 1/2"
    by (simp add: w0_def)
  have "rng (fst (FunkSVD 0 1 (1/2) 1 w0)) \<noteq> rng w0"
  proof
    assume "rng (fst (FunkSVD 0 1 (1/2) 1 w0)) = rng w0"
    then have "rng (fst (FunkSVD 0 1 (1/2) 1 w0)) 0 = rng w0 0"
      by simp
    then show False
      using after before by simp
  qed
  then show ?thesis
    using after before unfolding w0_def by blast
qed

text \<open>
  C7, as amended. For a ratings matrix with \<open>n_users\<close> rows and \<open>n_movies\<close> columns holding
  at least one entry that is not NaN (or when no iteration is asked for), and every number
  of latent features and of iterations, FunkSVD returns two distinct matrices, of shapes
  \<open>n_users\<close> by \<open>latent_features\<close> and \<open>latent_features\<close> by \<open>n_movies\<close>. The statement
  holds for every number of iterations, so the shapes are those after each iteration.
\<close>

theorem FunkSVD_shapes:
  assumes "0 < count_observed (heap w ! ratings) \<or> iters = 0"
  shows "\<exists>w' user_mat movie_mat.
           FunkSVD ratings latent rate iters w = (w', Inr (user_mat, movie_mat)) \<and>
           user_mat < length (heap w') \<and> movie_mat < length (heap w') \<and> user_mat \<noteq> movie_mat \<and>
           shape (heap w' ! user_mat) = (length (rows (heap w ! ratings)), latent) \<and>
           shape (heap w' ! movie_mat) = (latent, ncols (heap w ! ratings)) \<and>
           well_shaped (heap w' ! user_mat) \<and> well_shaped (heap w' ! movie_mat)"
proof -
  define users where "users = length (rows (heap w ! ratings))"
  define movies where "movies = ncols (heap w ! ratings)"
  define w3 where "w3 = w\<lparr>rng := (\<lambda>k. rng w (k + latent * movies + users * latent)),
                 heap := heap w @ [uniform_array (rng w) users latent,
                                   uniform_array (\<lambda>k. rng w (k + users * latent)) latent movies],
                 stdout := stdout w @ [Text ''Optimizaiton Statistics'',
                                       Text ''Iterations | Mean Squared Error '']\<rparr>"
  define w' where "w' = fst (FunkSVD ratings latent rate iters w)"
  define user_mat where "user_mat = length (heap w)"
  define movie_mat where "movie_mat = Suc (length (heap w))"
  have lay: "same_layout (length (heap w)) w3 w'"
    unfolding w3_def w'_def users_def movies_def by (rule FunkSVD_layout)
  have res: "FunkSVD ratings latent rate iters w = (w', Inr (user_mat, movie_mat))"
    using assms
    by (simp add: w'_def user_mat_def movie_mat_def FunkSVD_unfold Let_def iterations_returns)
  have len: "length (heap w') = length (heap w) + 2"
    using lay by (simp add: same_layout_def w3_def)
  have u3: "heap w3 ! user_mat = uniform_array (rng w) users latent"
    by (simp add: w3_def user_mat_def nth_append)
  have m3: "heap w3 ! movie_mat = uniform_array (\<lambda>k. rng w (k + users * latent)) latent movies"
    by (simp add: w3_def movie_mat_def nth_append)
  have ul: "user_mat < length (heap w3)" and ml: "movie_mat < length (heap w3)"
    by (simp_all add: w3_def user_mat_def movie_mat_def)
  have su: "shape (heap w' ! user_mat) = (length (rows (heap w ! ratings)), latent)"
    using same_layout_nth(1) [OF lay ul] by (simp add: u3 shape_uniform_array users_def)
  have sm: "shape (heap w' ! movie_mat) = (latent, ncols (heap w ! ratings))"
    using same_layout_nth(1) [OF lay ml] by (simp add: m3 shape_uniform_array movies_def)
  have wu: "well_shaped (heap w' ! user_mat)"
    using same_layout_nth(2) [OF lay ul] by (simp add: u3 well_shaped_uniform_array)
  have wm: "well_shaped (heap w' ! movie_mat)"
    using same_layout_nth(2) [OF lay ml] by (simp add: m3 well_shaped_uniform_array)
  have "user_mat < length (heap w')" "movie_mat < length (heap w')" "user_mat \<noteq> movie_mat"
    using len by (simp_all add: user_mat_def movie_mat_def)
  then show ?thesis
    using res su sm wu wm by blast
qed

theorem FunkSVD_shapes_witness:
  "\<exists>w' user_mat movie_mat.
     FunkSVD 0 3 (1/2) 2
       \<lparr>heap = [\<lparr>ncols = 2, rows = [[Fin 0, Fin 4]]\<rparr>], stdout = [], rng = (\<lambda>k. 1/2)\<rparr>
       = (w', Inr (user_mat, movie_mat)) \<and>
     shape (heap w' ! user_mat) = (1, 3) \<and> shape (heap w' ! movie_mat) = (3, 2)"
  using FunkSVD_shapes
    [where w = "\<lparr>heap = [\<lparr>ncols = 2, rows = [[Fin 0, Fin 4]]\<rparr>], stdout = [], rng = (\<lambda>k. 1/2)\<rparr>"
       and ratings = 0 and latent = 3 and rate = "1/2" and iters = 2]
  by (auto simp: count_observed_def)

text \<open>
  On a ratings matrix without any rating, \<^verbatim>\<open>num_ratings\<close> is 0 and \<^verbatim>\<open>sse_accum\<close> is still the
  int 0 when the first iteration prints its line: the division raises ZeroDivisionError
  and no matrix is returned.
\<close>

theorem FunkSVD_no_ratings:
  "snd (FunkSVD 0 1 (1/2) 1
          \<lparr>heap = [\<lparr>ncols = 1, rows = [[NaN]]\<rparr>], stdout = [], rng = (\<lambda>k. 1/2)\<rparr>)
     = Inl ZeroDivisionError"
  by (simp add: funk_defs upt_rec)

section \<open>FunkSVD: which entries train, and how\<close>

lemma visit_entry_skips:
  "\<not> fgt (load (fst s) (ratings_mat L) i j) (Fin 0) \<Longrightarrow> visit_entry L i j s = s"
  by (simp add: visit_entry_def Let_def)

lemma fgt_not_nan: "fgt v (Fin 0) \<Longrightarrow> \<not> isnan v"
  by (cases v) simp_all

lemma count_observed_positive:
  assumes "list_all (\<lambda>v. isnan v \<or> fgt v (Fin 0)) (concat (rows a))"
  shows "count_observed a = length (filter (\<lambda>v. fgt v (Fin 0)) (concat (rows a)))"
proof -
  have "filter (\<lambda>v. \<not> isnan v) (concat (rows a)) = filter (\<lambda>v. fgt v (Fin 0)) (concat (rows a))"
    using assms fgt_not_nan by (intro filter_cong) (auto simp: list_all_iff)
  then show ?thesis by (simp add: count_observed_def)
qed

text \<open>
  C1, at a ratings matrix with the ratings 0 and 4 of one user. Both entries are counted
  by \<^verbatim>\<open>num_ratings\<close>, but the rating 0 fails the test \<^verbatim>\<open>ratings_mat[i, j] > 0\<close>: the factor
  of its movie stays at its initial 1/2, and the printed mean squared error is the one
  squared error of the other entry, 225/16, divided by 2.
\<close>

theorem FunkSVD_zero_rating:
  "count_observed \<lparr>ncols = 2, rows = [[Fin 0, Fin 4]]\<rparr> = 2 \<and>
   FunkSVD 0 1 (1/2) 1
     \<lparr>heap = [\<lparr>ncols = 2, rows = [[Fin 0, Fin 4]]\<rparr>], stdout = [], rng = (\<lambda>k. 1/2)\<rparr>
   = (\<lparr>heap = [\<lparr>ncols = 2, rows = [[Fin 0, Fin 4]]\<rparr>,
               \<lparr>ncols = 1, rows = [[Fin (19/8)]]\<rparr>,
               \<lparr>ncols = 2, rows = [[Fin (1/2), Fin (301/32)]]\<rparr>],
       stdout = [Text ''Optimizaiton Statistics'', Text ''Iterations | Mean Squared Error '',
                 Stats 1 (Fin (225/32))],
       rng = (\<lambda>k. 1/2)\<rparr>,
      Inr (1, 2))"
  by (simp add: funk_defs upt_rec)

section \<open>FunkSVD: the update of one entry\<close>

text \<open>
  The gradient that claim C2 names: with the other factors held fixed, the squared error
  of an entry is \<open>(r - (x * other + rest))\<^sup>2\<close> as a function of one factor \<open>x\<close>, where
  \<open>other\<close> is the factor it is multiplied with and \<open>rest\<close> the rest of the dot product. Its
  derivative is \<open>- 2 * diff * other\<close>, for \<open>diff = r - (x * other + rest)\<close>.
\<close>

lemma squared_error_gradient:
  "((\<lambda>x. (r - (x * other + rest))\<^sup>2) has_real_derivative
      (- 2 * (r - (x * other + rest)) * other)) (at x)"
  by (auto intro!: derivative_eq_intros simp: algebra_simps)

lemma load_store_same:
  assumes "p < length (heap w)" and "i < length (rows (heap w ! p))"
    and "k < length (rows (heap w ! p) ! i)"
  shows "load (store p i k v w) p i k = v"
  using assms by (simp add: load_def store_def getitem_def setitem_def)

lemma load_store_other:
  assumes "p \<noteq> q"
  shows "load (store p i k v w) q i' k' = load w q i' k'"
  using assms by (simp add: load_def store_def)

lemma load_store_elsewhere:
  assumes "i' \<noteq> i \<or> k' \<noteq> k"
  shows "load (store p i k v w) p i' k' = load w p i' k'"
proof (cases "p < length (heap w)")
  case False
  then show ?thesis by (simp add: load_def store_def list_update_beyond)
next
  case True
  show ?thesis
  proof (cases "i' = i")
    case False
    then show ?thesis
      using True by (simp add: load_def store_def getitem_def setitem_def)
  next
    case same: True
    then have k: "k' \<noteq> k" using assms by simp
    show ?thesis
    proof (cases "i < length (rows (heap w ! p))")
      case True
      then show ?thesis
        using \<open>p < length (heap w)\<close> same k
        by (simp add: load_def store_def getitem_def setitem_def)
    next
      case False
      then show ?thesis
        using \<open>p < length (heap w)\<close>
        by (simp add: load_def store_def getitem_def setitem_def list_update_beyond)
    qed
  qed
qed

lemma factors_fit_bounds:
  assumes "factors_fit L w" and "i < n_users L" and "j < n_movies L" and "k < latent_features L"
  shows "i < length (rows (heap w ! user_mat L))"
    and "k < length (rows (heap w ! user_mat L) ! i)"
    and "k < length (rows (heap w ! movie_mat L))"
    and "j < length (rows (heap w ! movie_mat L) ! k)"
  using assms by (simp_all add: factors_fit_def shape_def well_shaped_def list_all_length)

lemma factors_fit_same_layout:
  assumes "same_layout n w w'" and "factors_fit L w"
  shows "factors_fit L w'"
proof -
  have u: "user_mat L < length (heap w)" and m: "movie_mat L < length (heap w)"
    using assms(2) by (simp_all add: factors_fit_def)
  have "length (heap w') = length (heap w)"
    using assms(1) by (simp add: same_layout_def)
  then show ?thesis
    using assms(2) same_layout_nth [OF assms(1) u] same_layout_nth [OF assms(1) m]
    by (simp add: factors_fit_def)
qed

lemma update_factor_elsewhere:
  assumes "user_mat L \<noteq> movie_mat L" and "k' \<noteq> k"
  shows "load (update_factor L diff i j k w) (user_mat L) i k' = load w (user_mat L) i k'"
    and "load (update_factor L diff i j k w) (movie_mat L) k' j = load w (movie_mat L) k' j"
  using assms
  by (simp_all add: update_factor_def Let_def load_store_other load_store_elsewhere)

lemma fold_update_factor_elsewhere:
  assumes "user_mat L \<noteq> movie_mat L" and "k' \<notin> set ks"
  shows "load (fold (update_factor L diff i j) ks w) (user_mat L) i k' = load w (user_mat L) i k'
       \<and> load (fold (update_factor L diff i j) ks w) (movie_mat L) k' j = load w (movie_mat L) k' j"
  using assms(2)
proof (induction ks arbitrary: w)
  case Nil
  show ?case by simp
next
  case (Cons k ks)
  then have "k' \<noteq> k" and "k' \<notin> set ks" by simp_all
  then show ?case
    using Cons.IH [of "update_factor L diff i j k w"] update_factor_elsewhere [OF assms(1)]
    by simp
qed

lemma update_factor_order:
  assumes "factors_fit L w" and "i < n_users L" and "j < n_movies L" and "k < latent_features L"
  shows "load (update_factor L diff i j k w) (user_mat L) i k
           = fadd (load w (user_mat L) i k)
               (fmul (Fin (learning_rate L)) (fmul (fmul (Fin 2) diff) (load w (movie_mat L) k j)))"
    and "load (update_factor L diff i j k w) (movie_mat L) k j
           = fadd (load w (movie_mat L) k j)
               (fmul (Fin (learning_rate L))
                  (fmul (fmul (Fin 2) diff) (load (update_factor L diff i j k w) (user_mat L) i k)))"
proof -
  note b = factors_fit_bounds [OF assms]
  have ne: "user_mat L \<noteq> movie_mat L"
    and ul: "user_mat L < length (heap w)" and ml: "movie_mat L < length (heap w)"
    using assms(1) by (simp_all add: factors_fit_def)
  define u' where "u' = fadd (load w (user_mat L) i k)
               (fmul (Fin (learning_rate L)) (fmul (fmul (Fin 2) diff) (load w (movie_mat L) k j)))"
  define w1 where "w1 = store (user_mat L) i k u' w"
  define m' where "m' = fadd (load w1 (movie_mat L) k j)
              (fmul (Fin (learning_rate L)) (fmul (fmul (Fin 2) diff) (load w1 (user_mat L) i k)))"
  have upd: "update_factor L diff i j k w = store (movie_mat L) k j m' w1"
    by (simp add: update_factor_def Let_def u'_def w1_def m'_def)
  have u1: "load w1 (user_mat L) i k = u'"
    unfolding w1_def by (rule load_store_same [OF ul b(1,2)])
  have m1: "load w1 (movie_mat L) k j = load w (movie_mat L) k j"
    unfolding w1_def by (rule load_store_other [OF ne])
  have h1: "heap w1 ! movie_mat L = heap w ! movie_mat L" "length (heap w1) = length (heap w)"
    using ne by (simp_all add: w1_def store_def)
  have u2: "load (store (movie_mat L) k j m' w1) (user_mat L) i k = u'"
    using load_store_other [of "movie_mat L" "user_mat L"] ne u1 by simp
  have m2: "load (store (movie_mat L) k j m' w1) (movie_mat L) k j = m'"
    by (rule load_store_same) (simp_all add: h1 ml b)
  have nu: "load (update_factor L diff i j k w) (user_mat L) i k = u'"
    by (simp only: upd u2)
  have nm: "load (update_factor L diff i j k w) (movie_mat L) k j = m'"
    by (simp only: upd m2)
  have m'_eq: "m' = fadd (load w (movie_mat L) k j)
                      (fmul (Fin (learning_rate L)) (fmul (fmul (Fin 2) diff) u'))"
    by (simp only: m'_def u1 m1)
  show "load (update_factor L diff i j k w) (user_mat L) i k
           = fadd (load w (user_mat L) i k)
               (fmul (Fin (learning_rate L)) (fmul (fmul (Fin 2) diff) (load w (movie_mat L) k j)))"
    by (simp only: nu u'_def)
  show "load (update_factor L diff i j k w) (movie_mat L) k j
           = fadd (load w (movie_mat L) k j)
               (fmul (Fin (learning_rate L))
                  (fmul (fmul (Fin 2) diff) (load (update_factor L diff i j k w) (user_mat L) i k)))"
    by (simp only: nm nu m'_eq)
qed

lemma fold_update_factor:
  assumes "i < n_users L" and "j < n_movies L"
  shows "factors_fit L w \<Longrightarrow> distinct ks \<Longrightarrow> k \<in> set ks \<Longrightarrow>
         list_all (\<lambda>k. k < latent_features L) ks \<Longrightarrow>
         load (fold (update_factor L diff i j) ks w) (user_mat L) i k
           = fadd (load w (user_mat L) i k)
               (fmul (Fin (learning_rate L)) (fmul (fmul (Fin 2) diff) (load w (movie_mat L) k j)))
       \<and> load (fold (update_factor L diff i j) ks w) (movie_mat L) k j
           = fadd (load w (movie_mat L) k j)
               (fmul (Fin (learning_rate L))
                  (fmul (fmul (Fin 2) diff)
                     (load (fold (update_factor L diff i j) ks w) (user_mat L) i k)))"
proof (induction ks arbitrary: w)
  case Nil
  then show ?case by simp
next
  case (Cons h ks)
  define w1 where "w1 = update_factor L diff i j h w"
  have ne: "user_mat L \<noteq> movie_mat L"
    using Cons.prems(1) by (simp add: factors_fit_def)
  have hb: "h < latent_features L" and rest: "list_all (\<lambda>k. k < latent_features L) ks"
    using Cons.prems(4) by simp_all
  have fit1: "factors_fit L w1"
    unfolding w1_def
    by (rule factors_fit_same_layout [OF same_layout_update_factor [of 0] Cons.prems(1)]) simp_all
  have step: "fold (update_factor L diff i j) (h # ks) w = fold (update_factor L diff i j) ks w1"
    by (simp add: w1_def)
  show ?case
  proof (cases "k = h")
    case True
    then have "k \<notin> set ks" using Cons.prems(2) by simp
    then have keep: "load (fold (update_factor L diff i j) ks w1) (user_mat L) i k
                       = load w1 (user_mat L) i k"
        "load (fold (update_factor L diff i j) ks w1) (movie_mat L) k j
                       = load w1 (movie_mat L) k j"
      using fold_update_factor_elsewhere [OF ne, of k ks diff i j w1] by simp_all
    have now: "load w1 (user_mat L) i k
           = fadd (load w (user_mat L) i k)
               (fmul (Fin (learning_rate L)) (fmul (fmul (Fin 2) diff) (load w (movie_mat L) k j)))"
        "load w1 (movie_mat L) k j
           = fadd (load w (movie_mat L) k j)
               (fmul (Fin (learning_rate L))
                  (fmul (fmul (Fin 2) diff) (load w1 (user_mat L) i k)))"
      unfolding w1_def True
      using update_factor_order [OF Cons.prems(1) assms hb, of diff] by simp_all
    show ?thesis
      unfolding step keep using now by simp
  next
    case False
    then have mem: "k \<in> set ks" using Cons.prems(3) by simp
    have dist: "distinct ks" using Cons.prems(2) by simp
    have before: "load w1 (user_mat L) i k = load w (user_mat L) i k"
        "load w1 (movie_mat L) k j = load w (movie_mat L) k j"
      unfolding w1_def using update_factor_elsewhere [OF ne False] by simp_all
    show ?thesis
      unfolding step using Cons.IH [OF fit1 dist mem rest] before by simp
  qed
qed

text \<open>
  C2, as amended. For every entry \<open>(i, j)\<close> with a rating above 0 that an iteration
  processes, and every latent feature \<open>k\<close>: with \<open>diff\<close> the rating minus the dot product
  of the user's row and the movie's column, computed once from the factors held before
  the entry's update, the user factor \<open>user_mat[i, k]\<close> is incremented by the learning rate
  times \<open>2 * diff * movie_mat[k, j]\<close>, the movie factor as held before (the learning rate
  times the negative of the gradient at the factors held before: a descent step), and the
  movie factor \<open>movie_mat[k, j]\<close> is incremented by the learning rate times
  \<open>2 * diff * user_mat[i, k]\<close>, the user factor as just updated.
\<close>

theorem visit_entry_factor_updates:
  assumes "fgt (load w (ratings_mat L) i j) (Fin 0)"
    and "factors_fit L w"
    and "i < n_users L" and "j < n_movies L" and "k < latent_features L"
  shows "\<exists>diff w'.
           diff = fsub (load w (ratings_mat L) i j)
                    (dot (row_of (heap w ! user_mat L) i) (column_of (heap w ! movie_mat L) j)) \<and>
           visit_entry L i j (w, sse_accum) = (w', add_square sse_accum diff) \<and>
           load w' (user_mat L) i k
             = fadd (load w (user_mat L) i k)
                 (fmul (Fin (learning_rate L))
                    (fmul (fmul (Fin 2) diff) (load w (movie_mat L) k j))) \<and>
           load w' (movie_mat L) k j
             = fadd (load w (movie_mat L) k j)
                 (fmul (Fin (learning_rate L))
                    (fmul (fmul (Fin 2) diff) (load w' (user_mat L) i k)))"
proof -
  define diff where "diff = fsub (load w (ratings_mat L) i j)
                    (dot (row_of (heap w ! user_mat L) i) (column_of (heap w ! movie_mat L) j))"
  define w' where "w' = fold (update_factor L diff i j) [0..<latent_features L] w"
  have res: "visit_entry L i j (w, sse_accum) = (w', add_square sse_accum diff)"
    using assms(1) by (simp add: visit_entry_def Let_def diff_def w'_def)
  have "load w' (user_mat L) i k
             = fadd (load w (user_mat L) i k)
                 (fmul (Fin (learning_rate L))
                    (fmul (fmul (Fin 2) diff) (load w (movie_mat L) k j))) \<and>
        load w' (movie_mat L) k j
             = fadd (load w (movie_mat L) k j)
                 (fmul (Fin (learning_rate L))
                    (fmul (fmul (Fin 2) diff) (load w' (user_mat L) i k)))"
    unfolding w'_def
    using assms(5) by (intro fold_update_factor [OF assms(3,4) assms(2)]) (simp_all add: list_all_iff)
  then show ?thesis
    using res diff_def by blast
qed

theorem visit_entry_factor_updates_witness:
  "visit_entry
     \<lparr>ratings_mat = 0, user_mat = 1, movie_mat = 2, latent_features = 1, learning_rate = 1/2,
      n_users = 1, n_movies = 1, num_ratings = 1\<rparr> 0 0
     (\<lparr>heap = [\<lparr>ncols = 1, rows = [[Fin 1]]\<rparr>, \<lparr>ncols = 1, rows = [[Fin (1/2)]]\<rparr>,
               \<lparr>ncols = 1, rows = [[Fin (1/2)]]\<rparr>],
       stdout = [], rng = (\<lambda>k. 1/2)\<rparr>, PyInt 0)
   = (\<lparr>heap = [\<lparr>ncols = 1, rows = [[Fin 1]]\<rparr>, \<lparr>ncols = 1, rows = [[Fin (7/8)]]\<rparr>,
               \<lparr>ncols = 1, rows = [[Fin (37/32)]]\<rparr>],
       stdout = [], rng = (\<lambda>k. 1/2)\<rparr>, NpFloat (Fin (9/16)))"
  using visit_entry_factor_updates
    [where L = "\<lparr>ratings_mat = 0, user_mat = 1, movie_mat = 2, latent_features = 1,
                  learning_rate = 1/2, n_users = 1, n_movies = 1, num_ratings = 1\<rparr>"
       and w = "\<lparr>heap = [\<lparr>ncols = 1, rows = [[Fin 1]]\<rparr>, \<lparr>ncols = 1, rows = [[Fin (1/2)]]\<rparr>,
                          \<lparr>ncols = 1, rows = [[Fin (1/2)]]\<rparr>],
                  stdout = [], rng = (\<lambda>k. 1/2)\<rparr>"
       and i = 0 and j = 0 and k = 0 and sse_accum = "PyInt 0"]
  by (simp add: visit_entry_def update_factor_def load_def store_def getitem_def setitem_def
      row_of_def column_of_def Let_def)

text \<open>
  The arrays with which FunkSVD enters its loop fit, and every iteration keeps them so:
  the theorem above applies to the entries FunkSVD processes.
\<close>

lemma FunkSVD_factors_fit:
  fixes ratings latent rate w
  defines "users \<equiv> length (rows (heap w ! ratings))"
    and "movies \<equiv> ncols (heap w ! ratings)"
  defines "L \<equiv> \<lparr>ratings_mat = ratings, user_mat = length (heap w),
                  movie_mat = Suc (length (heap w)), latent_features = latent,
                  learning_rate = rate, n_users = users, n_movies = movies,
                  num_ratings = count_observed (heap w ! ratings)\<rparr>"
    and "w3 \<equiv> w\<lparr>rng := (\<lambda>k. rng w (k + latent * movies + users * latent)),
                 heap := heap w @ [uniform_array (rng w) users latent,
                                   uniform_array (\<lambda>k. rng w (k + users * latent)) latent movies],
                 stdout := stdout w @ [Text ''Optimizaiton Statistics'',
                                       Text ''Iterations | Mean Squared Error '']\<rparr>"
  shows "factors_fit L (fst (iterations L n w3))"
proof -
  have "factors_fit L w3"
    by (simp add: factors_fit_def L_def w3_def nth_append shape_uniform_array
        well_shaped_uniform_array)
  moreover have "same_layout 0 w3 (fst (iterations L n w3))"
    by (rule same_layout_iterations) simp_all
  ultimately show ?thesis
    by (rule factors_fit_same_layout [rotated])
qed

text \<open>
  The claim's own update at the one-by-one ratings matrix with the rating 1, one latent
  feature, learning rate 1/2 and both factors initially 1/2. The error is 3/4 and the
  gradient with respect to either factor is - 2 * 3/4 * 1/2 = - 3/4, so the claim moves
  both factors to 1/2 + 1/2 * (- 3/4) = 1/8. The code moves the user factor to
  1/2 + 1/2 * (2 * 3/4 * 1/2) = 7/8 and the movie factor to
  1/2 + 1/2 * (2 * 3/4 * 7/8) = 37/32.
\<close>

theorem FunkSVD_update_is_not_claimed_step:
  "FunkSVD 0 1 (1/2) 1
     \<lparr>heap = [\<lparr>ncols = 1, rows = [[Fin 1]]\<rparr>], stdout = [], rng = (\<lambda>k. 1/2)\<rparr>
   = (\<lparr>heap = [\<lparr>ncols = 1, rows = [[Fin 1]]\<rparr>,
               \<lparr>ncols = 1, rows = [[Fin (7/8)]]\<rparr>,
               \<lparr>ncols = 1, rows = [[Fin (37/32)]]\<rparr>],
       stdout = [Text ''Optimizaiton Statistics'', Text ''Iterations | Mean Squared Error '',
                 Stats 1 (Fin (9/16))],
       rng = (\<lambda>k. 1/2)\<rparr>,
      Inr (1, 2)) \<and>
   claimed_gradient_step (1/2) (Fin 1) [Fin (1/2)] [Fin (1/2)] = ([Fin (1/8)], [Fin (1/8)])"
  by (simp add: funk_defs upt_rec claimed_gradient_step_def)

end
